theory Spec2Isabelle
  imports Main
begin

section \<open>Python values and insertion-ordered dictionaries\<close>

text \<open>
  The values the script handles are the ones \<^verbatim>\<open>json.loads\<close> returns (None, bool, int,
  float, str, list, dict with string keys), plus \<open>PObj\<close>: any other Python object, one that
  \<^verbatim>\<open>json.dumps\<close> rejects (\<^verbatim>\<open>dict_to_duckdb\<close> is typed \<^verbatim>\<open>Dict[str, Any]\<close>).
  Floats are opaque: the script only tests \<^verbatim>\<open>isinstance(x, float)\<close> and passes them on,
  so their type is the parameter \<open>'f\<close>. Python's \<^verbatim>\<open>int\<close> is unbounded, hence \<open>int\<close>.

  A Python \<^verbatim>\<open>dict\<close> keeps insertion order, and the script depends on it (column order,
  first row's keys), so a dictionary is an association list: \<^verbatim>\<open>d.items()\<close> is the list itself,
  \<^verbatim>\<open>d[k] = v\<close> replaces the value in place when \<open>k\<close> is present and appends otherwise.
\<close>

datatype 'f pyval =
    PNone
  | PBool bool
  | PInt int
  | PFloat 'f
  | PStr string
  | PList "'f pyval list"
  | PDict "(string \<times> 'f pyval) list"
  | PObj string

type_synonym 'v pydict = "(string \<times> 'v) list"

definition dict_keys :: "'v pydict \<Rightarrow> string list" where
  "dict_keys d = map fst d"

text \<open>\<^verbatim>\<open>d.get(k)\<close>, with \<open>None\<close> of the option type for an absent key.\<close>

definition dict_get :: "'v pydict \<Rightarrow> string \<Rightarrow> 'v option" where
  "dict_get d k = map_of d k"

text \<open>\<^verbatim>\<open>d[k] = v\<close>.\<close>

fun dict_set :: "'v pydict \<Rightarrow> string \<Rightarrow> 'v \<Rightarrow> 'v pydict" where
  "dict_set [] k v = [(k, v)]"
| "dict_set ((k', v') # d) k v =
     (if k' = k then (k, v) # d else (k', v') # dict_set d k v)"

text \<open>\<^verbatim>\<open>r.get(c)\<close> on a row: Python's default \<^verbatim>\<open>None\<close> for an absent key.\<close>

definition row_get :: "'f pyval pydict \<Rightarrow> string \<Rightarrow> 'f pyval" where
  "row_get r c = (case dict_get r c of None \<Rightarrow> PNone | Some v \<Rightarrow> v)"

text \<open>\<^verbatim>\<open>r.setdefault(k, v)\<close>, for its effect on \<open>r\<close>.\<close>

definition dict_setdefault :: "'v pydict \<Rightarrow> string \<Rightarrow> 'v \<Rightarrow> 'v pydict" where
  "dict_setdefault d k v = (if k \<in> set (dict_keys d) then d else d @ [(k, v)])"

section \<open>Column kinds and their merge\<close>

text \<open>
  \<^verbatim>\<open>TYPE_ORDER = ["BIGINT", "DOUBLE", "TEXT"]\<close>; kinds are strings in the source, and
  \<^verbatim>\<open>_merge_type\<close> accepts any string.
\<close>

definition TYPE_ORDER :: "string list" where
  "TYPE_ORDER = [''BIGINT'', ''DOUBLE'', ''TEXT'']"

text \<open>\<^verbatim>\<open>order.get(t, 2)\<close> with \<^verbatim>\<open>order = {t: i for i, t in enumerate(TYPE_ORDER)}\<close>.\<close>

definition order_get :: "string \<Rightarrow> nat" where
  "order_get t =
     (case map_of (zip TYPE_ORDER [0 ..< length TYPE_ORDER]) t of
        None \<Rightarrow> 2
      | Some i \<Rightarrow> i)"

definition merge_type :: "string \<Rightarrow> string \<Rightarrow> string" where
  "merge_type t1 t2 =
     (if t1 = t2 then t1
      else TYPE_ORDER ! max (order_get t1) (order_get t2))"

text \<open>
  The merge as the specification words it: the three kinds in the strict total order
  \<open>BIGINT < DOUBLE < TEXT\<close>, an unrecognized name read as \<open>TEXT\<close>, and the merge the
  maximum of the two.
\<close>

datatype kind = BIGINT | DOUBLE | TEXT

fun kind_rank :: "kind \<Rightarrow> nat" where
  "kind_rank BIGINT = 0"
| "kind_rank DOUBLE = 1"
| "kind_rank TEXT = 2"

definition kind_of_name :: "string \<Rightarrow> kind" where
  "kind_of_name t =
     (if t = ''BIGINT'' then BIGINT else if t = ''DOUBLE'' then DOUBLE else TEXT)"

fun kind_name :: "kind \<Rightarrow> string" where
  "kind_name BIGINT = ''BIGINT''"
| "kind_name DOUBLE = ''DOUBLE''"
| "kind_name TEXT = ''TEXT''"

definition kind_max :: "kind \<Rightarrow> kind \<Rightarrow> kind" where
  "kind_max a b = (if kind_rank a \<le> kind_rank b then b else a)"

definition spec_merge :: "string \<Rightarrow> string \<Rightarrow> string" where
  "spec_merge t1 t2 = kind_name (kind_max (kind_of_name t1) (kind_of_name t2))"

section \<open>JSON serialization\<close>

text \<open>
  \<^verbatim>\<open>json.dumps(v, ensure_ascii=False)\<close> of the Python standard library, with its default
  separators \<^verbatim>\<open>", "\<close> and \<^verbatim>\<open>": "\<close>. Strings are byte strings here; with
  \<^verbatim>\<open>ensure_ascii=False\<close> only the backslash, the double quote and the control characters
  below 0x20 are escaped, so bytes above 0x7F pass through unchanged. The text of a float
  (\<^verbatim>\<open>float.__repr__\<close>, \<^verbatim>\<open>NaN\<close>, \<^verbatim>\<open>Infinity\<close>) is the parameter \<open>fr\<close>. The result is
  \<open>None\<close> where \<^verbatim>\<open>json.dumps\<close> raises \<^verbatim>\<open>TypeError\<close>: on an object that is not
  serializable, alone or inside a list or dictionary.
\<close>

definition hex_digit :: "nat \<Rightarrow> char" where
  "hex_digit n = ''0123456789abcdef'' ! (n mod 16)"

definition escape_char :: "char \<Rightarrow> string" where
  "escape_char c =
     (if c = CHR 0x5C then [CHR 0x5C, CHR 0x5C]
      else if c = CHR 0x22 then [CHR 0x5C, CHR 0x22]
      else if c = CHR 0x08 then [CHR 0x5C, CHR ''b'']
      else if c = CHR 0x0C then [CHR 0x5C, CHR ''f'']
      else if c = CHR 0x0A then [CHR 0x5C, CHR ''n'']
      else if c = CHR 0x0D then [CHR 0x5C, CHR ''r'']
      else if c = CHR 0x09 then [CHR 0x5C, CHR ''t'']
      else if (of_char c :: nat) < 32
        then [CHR 0x5C] @ ''u00'' @ [hex_digit (of_char c div 16), hex_digit (of_char c)]
      else [c])"

definition encode_string :: "string \<Rightarrow> string" where
  "encode_string s = [CHR 0x22] @ concat (map escape_char s) @ [CHR 0x22]"

fun nat_digits :: "nat \<Rightarrow> string" where
  "nat_digits n =
     (if n < 10 then [''0123456789'' ! n]
      else nat_digits (n div 10) @ [''0123456789'' ! (n mod 10)])"

declare nat_digits.simps [simp del]

definition int_repr :: "int \<Rightarrow> string" where
  "int_repr i = (if i < 0 then CHR ''-'' # nat_digits (nat (- i)) else nat_digits (nat i))"

text \<open>\<^verbatim>\<open>sep.join(xs)\<close>.\<close>

fun join :: "string \<Rightarrow> string list \<Rightarrow> string" where
  "join sep [] = []"
| "join sep [x] = x"
| "join sep (x # y # ys) = x @ sep @ join sep (y # ys)"

fun json_dumps :: "('f \<Rightarrow> string) \<Rightarrow> 'f pyval \<Rightarrow> string option"
  and dumps_items :: "('f \<Rightarrow> string) \<Rightarrow> 'f pyval list \<Rightarrow> string list option"
  and dumps_members :: "('f \<Rightarrow> string) \<Rightarrow> (string \<times> 'f pyval) list \<Rightarrow> string list option"
where
  "json_dumps fr PNone = Some ''null''"
| "json_dumps fr (PBool b) = Some (if b then ''true'' else ''false'')"
| "json_dumps fr (PInt i) = Some (int_repr i)"
| "json_dumps fr (PFloat x) = Some (fr x)"
| "json_dumps fr (PStr s) = Some (encode_string s)"
| "json_dumps fr (PList xs) =
     (case dumps_items fr xs of
        None \<Rightarrow> None
      | Some ss \<Rightarrow> Some (''['' @ join '', '' ss @ '']''))"
| "json_dumps fr (PDict kvs) =
     (case dumps_members fr kvs of
        None \<Rightarrow> None
      | Some ss \<Rightarrow> Some (''{'' @ join '', '' ss @ ''}''))"
| "json_dumps fr (PObj n) = None"
| "dumps_items fr [] = Some []"
| "dumps_items fr (x # xs) =
     (case json_dumps fr x of
        None \<Rightarrow> None
      | Some s \<Rightarrow> (case dumps_items fr xs of None \<Rightarrow> None | Some ss \<Rightarrow> Some (s # ss)))"
| "dumps_members fr [] = Some []"
| "dumps_members fr ((k, v) # kvs) =
     (case json_dumps fr v of
        None \<Rightarrow> None
      | Some s \<Rightarrow>
          (case dumps_members fr kvs of
             None \<Rightarrow> None
           | Some ss \<Rightarrow> Some ((encode_string k @ '': '' @ s) # ss)))"

section \<open>The type inferencer\<close>

text \<open>
  What the script takes from the Python runtime: the JSON text of a float, \<^verbatim>\<open>str(v)\<close>
  (the fallback rendering), and \<^verbatim>\<open>json.loads\<close> (\<open>None\<close> where it raises).
\<close>

record 'f python =
  float_repr :: "'f \<Rightarrow> string"
  str_of :: "'f pyval \<Rightarrow> string"
  json_loads :: "string \<Rightarrow> 'f pyval option"

text \<open>
  \<^verbatim>\<open>isinstance\<close>: in Python \<^verbatim>\<open>bool\<close> is a subclass of \<^verbatim>\<open>int\<close>, so
  \<^verbatim>\<open>isinstance(True, int)\<close> holds, and \<^verbatim>\<open>_is_int\<close> excludes booleans first.
\<close>

fun isinstance_bool :: "'f pyval \<Rightarrow> bool" where
  "isinstance_bool (PBool b) = True"
| "isinstance_bool v = False"

fun isinstance_int :: "'f pyval \<Rightarrow> bool" where
  "isinstance_int (PInt i) = True"
| "isinstance_int (PBool b) = True"
| "isinstance_int v = False"

fun isinstance_float :: "'f pyval \<Rightarrow> bool" where
  "isinstance_float (PFloat x) = True"
| "isinstance_float v = False"

fun isinstance_str :: "'f pyval \<Rightarrow> bool" where
  "isinstance_str (PStr s) = True"
| "isinstance_str v = False"

fun isinstance_dict :: "'f pyval \<Rightarrow> bool" where
  "isinstance_dict (PDict d) = True"
| "isinstance_dict v = False"

definition is_int :: "'f pyval \<Rightarrow> bool" where
  "is_int x = (isinstance_bool x = False \<and> isinstance_int x)"

definition is_float :: "'f pyval \<Rightarrow> bool" where
  "is_float x = isinstance_float x"

definition to_cell_value :: "'f python \<Rightarrow> 'f pyval \<Rightarrow> 'f pyval \<times> string" where
  "to_cell_value py v =
     (if v = PNone then (PNone, ''TEXT'')
      else if is_int v then (v, ''BIGINT'')
      else if is_float v then (v, ''DOUBLE'')
      else if isinstance_str v then (v, ''TEXT'')
      else (case json_dumps (float_repr py) v of
              Some s \<Rightarrow> (PStr s, ''TEXT'')
            | None \<Rightarrow> (PStr (str_of py v), ''TEXT'')))"

text \<open>
  \<^verbatim>\<open>_infer_schema\<close>: the inner loop over \<^verbatim>\<open>row.items()\<close> and the outer loop over the
  rows. The source mutates each row in place; the model returns the schema and the rows.
  The inner loop runs over the items of the row as they were when it started: the loop
  body changes only the value of the key it is at, which is already past.
\<close>

fun infer_items ::
  "'f python \<Rightarrow> 'f pyval pydict \<Rightarrow> 'f pyval pydict \<Rightarrow> string pydict
     \<Rightarrow> 'f pyval pydict \<times> string pydict" where
  "infer_items py [] row col_types = (row, col_types)"
| "infer_items py ((k, v) # kvs) row col_types =
     (let (val, t) = to_cell_value py v;
          row' = dict_set row k val;
          prev = dict_get col_types k;
          col_types' = dict_set col_types k
             (case prev of None \<Rightarrow> t | Some p \<Rightarrow> merge_type p t)
      in infer_items py kvs row' col_types')"

fun infer_rows ::
  "'f python \<Rightarrow> 'f pyval pydict list \<Rightarrow> string pydict
     \<Rightarrow> 'f pyval pydict list \<times> string pydict" where
  "infer_rows py [] col_types = ([], col_types)"
| "infer_rows py (row # rows) col_types =
     (let (row', col_types') = infer_items py row row col_types;
          (rows', col_types'') = infer_rows py rows col_types'
      in (row' # rows', col_types''))"

definition infer_schema ::
  "'f python \<Rightarrow> 'f pyval pydict list \<Rightarrow> string pydict \<times> 'f pyval pydict list" where
  "infer_schema py rows = (let (rows', col_types) = infer_rows py rows [] in (col_types, rows'))"

text \<open>
  What the inner loop leaves in a row with distinct keys (lemma \<open>infer_items_row\<close>
  below): each value replaced by its storable form.
\<close>

definition coerce_row :: "'f python \<Rightarrow> 'f pyval pydict \<Rightarrow> 'f pyval pydict" where
  "coerce_row py row = map (\<lambda>(k, v). (k, fst (to_cell_value py v))) row"

section \<open>The database engine\<close>

text \<open>
  The script hands the engine SQL text (\<^verbatim>\<open>con.execute\<close>, \<^verbatim>\<open>con.executemany\<close>) and the
  engine is not part of the source, so it is a parameter. A database file holds named
  tables; a table has its columns (name and declared kind, in order) and its stored
  tuples, each aligned with the columns. The engine decides
  \<^item> whether a path can be opened (\<open>opens\<close>);
  \<^item> which statement it reads in a text (\<open>reads\<close>): one of the two forms below, or
    \<open>None\<close> when it reads anything else or raises a parser error;
  \<^item> whether it accepts a statement it has read, on a database and with the data tuples
    bound to the placeholders (\<open>accepts\<close>): name clashes, unknown kinds, values that do
    not fit a column and every other rule of its own;
  \<^item> the form in which a value that is not null is stored in a column of a kind
    (\<open>stores\<close>);
  \<^item> the outcome of a text it does not read as one of the two forms and the database a
    rejected statement leaves behind (\<open>on_other\<close>).
  What is fixed is the meaning of an accepted statement.
  \<^verbatim>\<open>CREATE OR REPLACE TABLE t (cols)\<close> drops any table \<open>t\<close> and creates an empty one with
  these columns. \<^verbatim>\<open>INSERT INTO t (cs) VALUES (?, ...)\<close>, run over the data tuples, appends
  one stored tuple per data tuple: a column named in \<open>cs\<close> takes the value at its position
  (null stays null), any other column of the table takes null. No engine accepts a table
  without columns or with a repeated column name, an insert into a table that does not
  exist, an insert whose column list is empty, repeats a name or names no column of the
  table, or a tuple that has not one value per placeholder (\<open>well_formed\<close>). The
  connection is in auto-commit mode, the default of \<^verbatim>\<open>duckdb.connect\<close>: an accepted
  statement takes effect at once.
\<close>

datatype error = FileNotFoundError | JSONDecodeError | SystemError | StorageError

record 'f table =
  columns :: "(string \<times> string) list"
  tuples :: "'f pyval list list"

type_synonym 'f database = "string \<rightharpoonup> 'f table"

datatype statement =
    CreateOrReplaceTable string "(string \<times> string) list"
  | InsertInto string "string list" nat

record 'f engine =
  opens :: "string \<Rightarrow> bool"
  reads :: "string \<Rightarrow> statement option"
  accepts :: "'f database \<Rightarrow> statement \<Rightarrow> 'f pyval list list \<Rightarrow> bool"
  stores :: "string \<Rightarrow> 'f pyval \<Rightarrow> 'f pyval"
  on_other :: "'f database \<Rightarrow> string \<Rightarrow> 'f pyval list list \<Rightarrow> error option \<times> 'f database"

fun well_formed :: "'f database \<Rightarrow> statement \<Rightarrow> 'f pyval list list \<Rightarrow> bool" where
  "well_formed con (CreateOrReplaceTable t cols) data =
     (cols \<noteq> [] \<and> distinct (map fst cols))"
| "well_formed con (InsertInto t cs n) data =
     (case con t of
        None \<Rightarrow> False
      | Some tb \<Rightarrow>
          cs \<noteq> [] \<and> distinct cs \<and> list_all (\<lambda>c. c \<in> set (map fst (columns tb))) cs
          \<and> n = length cs \<and> list_all (\<lambda>d. length d = n) data)"

definition stored_tuple ::
  "'f engine \<Rightarrow> (string \<times> string) list \<Rightarrow> string list \<Rightarrow> 'f pyval list \<Rightarrow> 'f pyval list" where
  "stored_tuple eng cols cs d =
     map (\<lambda>(c, t). case map_of (zip cs d) c of
                      None \<Rightarrow> PNone
                    | Some v \<Rightarrow> if v = PNone then PNone else stores eng t v) cols"

fun effect :: "'f engine \<Rightarrow> 'f database \<Rightarrow> statement \<Rightarrow> 'f pyval list list \<Rightarrow> 'f database" where
  "effect eng con (CreateOrReplaceTable t cols) data =
     con(t \<mapsto> \<lparr>columns = cols, tuples = []\<rparr>)"
| "effect eng con (InsertInto t cs n) data =
     (case con t of
        None \<Rightarrow> con
      | Some tb \<Rightarrow>
          con(t \<mapsto> tb\<lparr>tuples := tuples tb @ map (stored_tuple eng (columns tb) cs) data\<rparr>))"

text \<open>
  \<^verbatim>\<open>con.execute(text)\<close> and \<^verbatim>\<open>con.executemany(text, data)\<close>: the error raised, if any,
  and the database afterwards.
\<close>

definition execute ::
  "'f engine \<Rightarrow> 'f database \<Rightarrow> string \<Rightarrow> 'f pyval list list \<Rightarrow> error option \<times> 'f database" where
  "execute eng con text data =
     (case reads eng text of
        None \<Rightarrow> on_other eng con text data
      | Some stmt \<Rightarrow>
          if well_formed con stmt data \<and> accepts eng con stmt data
          then (None, effect eng con stmt data)
          else (Some StorageError, snd (on_other eng con text data)))"

section \<open>The writer and the pipeline\<close>

text \<open>
  \<^verbatim>\<open>_create_or_replace_table\<close>, lines 81 and 82: the text pastes the table name and each
  column name between double quotes as they are, one column per item of the schema, in
  its order.
\<close>

definition create_sql :: "string \<Rightarrow> string pydict \<Rightarrow> string" where
  "create_sql table_name schema =
     (let cols_sql = join '', '' (map (\<lambda>(c, t). [CHR 0x22] @ c @ [CHR 0x22] @ '' '' @ t) schema)
      in ''CREATE OR REPLACE TABLE '' @ [CHR 0x22] @ table_name @ [CHR 0x22]
           @ '' ('' @ cols_sql @ '')'')"

definition create_or_replace_table ::
  "'f engine \<Rightarrow> 'f database \<Rightarrow> string \<Rightarrow> string pydict \<Rightarrow> error option \<times> 'f database" where
  "create_or_replace_table eng con table_name schema =
     execute eng con (create_sql table_name schema) []"

text \<open>
  \<^verbatim>\<open>_insert_rows\<close>, lines 86 to 92: nothing for no rows; otherwise the column list is the
  first row's keys, there is one placeholder per column, and each data tuple is
  \<^verbatim>\<open>tuple(r.get(c) for c in cols)\<close>.
\<close>

definition insert_cols :: "'f pyval pydict list \<Rightarrow> string list" where
  "insert_cols rows = (case rows of [] \<Rightarrow> [] | r0 # rs \<Rightarrow> dict_keys r0)"

definition insert_sql :: "string \<Rightarrow> string list \<Rightarrow> string" where
  "insert_sql table_name cols =
     (let placeholders = join '', '' (replicate (length cols) ''?'');
          col_list = join '', '' (map (\<lambda>c. [CHR 0x22] @ c @ [CHR 0x22]) cols)
      in ''INSERT INTO '' @ [CHR 0x22] @ table_name @ [CHR 0x22]
           @ '' ('' @ col_list @ '') VALUES ('' @ placeholders @ '')'')"

definition insert_data :: "'f pyval pydict list \<Rightarrow> 'f pyval list list" where
  "insert_data rows = map (\<lambda>r. map (\<lambda>c. row_get r c) (insert_cols rows)) rows"

definition insert_rows ::
  "'f engine \<Rightarrow> 'f database \<Rightarrow> string \<Rightarrow> 'f pyval pydict list \<Rightarrow> error option \<times> 'f database" where
  "insert_rows eng con table_name rows =
     (if rows = [] then (None, con)
      else execute eng con (insert_sql table_name (insert_cols rows)) (insert_data rows))"

text \<open>
  \<^verbatim>\<open>dict_to_duckdb\<close>, lines 103 to 112: one row per record, \<^verbatim>\<open>record_id\<close> first, then the
  payload's items when the payload is a dictionary, the payload under \<^verbatim>\<open>data\<close> otherwise.
\<close>

definition make_row :: "string \<Rightarrow> 'f pyval \<Rightarrow> 'f pyval pydict" where
  "make_row rec_id payload =
     (let row = [(''record_id'', PStr rec_id)]
      in case payload of
           PDict items \<Rightarrow> fold (\<lambda>(k, v) row. dict_set row k v) items row
         | _ \<Rightarrow> dict_set row ''data'' payload)"

definition build_rows :: "'f pyval pydict \<Rightarrow> 'f pyval pydict list" where
  "build_rows dictionary = map (\<lambda>(rec_id, payload). make_row rec_id payload) dictionary"

text \<open>Lines 117 to 123: \<^verbatim>\<open>record_id\<close> is made a \<^verbatim>\<open>TEXT\<close> column.\<close>

definition ensure_record_id ::
  "string pydict \<Rightarrow> 'f pyval pydict list \<Rightarrow> string pydict \<times> 'f pyval pydict list" where
  "ensure_record_id schema rows =
     (if ''record_id'' \<notin> set (dict_keys schema)
      then (dict_set schema ''record_id'' ''TEXT'',
            map (\<lambda>r. dict_setdefault r ''record_id'' PNone) rows)
      else (dict_set schema ''record_id'' ''TEXT'', rows))"

text \<open>The schema and the rows that reach the writer (lines 103 to 123).\<close>

definition schema_and_rows ::
  "'f python \<Rightarrow> 'f pyval pydict \<Rightarrow> string pydict \<times> 'f pyval pydict list" where
  "schema_and_rows py dictionary =
     (let rows = build_rows dictionary;
          (schema, rows') = infer_schema py rows
      in ensure_record_id schema rows')"

text \<open>
  Lines 125 to 131. The files of the machine are a function from path to database, a path
  that does not exist yet being the empty database. \<^verbatim>\<open>duckdb.connect\<close> raises when the
  engine cannot open the path. An error of either statement propagates, the connection
  being closed on every path; the database is then as the engine left it.
\<close>

definition write_table ::
  "'f engine \<Rightarrow> (string \<Rightarrow> 'f database) \<Rightarrow> string \<Rightarrow> string \<Rightarrow> string pydict
     \<Rightarrow> 'f pyval pydict list \<Rightarrow> (error + unit) \<times> (string \<Rightarrow> 'f database)" where
  "write_table eng dbs db_path table_name schema rows =
     (if \<not> opens eng db_path then (Inl StorageError, dbs)
      else (case create_or_replace_table eng (dbs db_path) table_name schema of
              (Some e, con1) \<Rightarrow> (Inl e, dbs(db_path := con1))
            | (None, con1) \<Rightarrow>
                (case insert_rows eng con1 table_name rows of
                   (Some e, con2) \<Rightarrow> (Inl e, dbs(db_path := con2))
                 | (None, con2) \<Rightarrow> (Inr (), dbs(db_path := con2)))))"

definition dict_to_duckdb ::
  "'f engine \<Rightarrow> 'f python \<Rightarrow> (string \<Rightarrow> 'f database) \<Rightarrow> string \<Rightarrow> string \<Rightarrow> 'f pyval pydict
     \<Rightarrow> (error + unit) \<times> (string \<Rightarrow> 'f database)" where
  "dict_to_duckdb eng py dbs db_path table_name dictionary =
     (let (schema, rows) = schema_and_rows py dictionary
      in write_table eng dbs db_path table_name schema rows)"

text \<open>
  \<^verbatim>\<open>main\<close>, after argument parsing: the input files are a map from path to text. The
  result is the line printed, or the error raised, and the databases as the run leaves them.
\<close>

record arguments =
  arg_json :: string
  arg_db :: string
  arg_table :: string

definition main ::
  "'f engine \<Rightarrow> 'f python \<Rightarrow> (string \<rightharpoonup> string) \<Rightarrow> arguments \<Rightarrow> (string \<Rightarrow> 'f database)
     \<Rightarrow> (error + string) \<times> (string \<Rightarrow> 'f database)" where
  "main eng py files args dbs =
     (case files (arg_json args) of
        None \<Rightarrow> (Inl FileNotFoundError, dbs)
      | Some text \<Rightarrow>
          (case json_loads py text of
             None \<Rightarrow> (Inl JSONDecodeError, dbs)
           | Some data \<Rightarrow>
               if \<not> isinstance_dict data then (Inl SystemError, dbs)
               else (case data of
                       PDict dictionary \<Rightarrow>
                         (case dict_to_duckdb eng py dbs (arg_db args) (arg_table args) dictionary of
                            (Inl e, dbs') \<Rightarrow> (Inl e, dbs')
                          | (Inr u, dbs') \<Rightarrow>
                              (Inr (''Loaded '' @ [CHR 0x27] @ arg_json args @ [CHR 0x27] @ '' into ''
                                     @ arg_db args @ '':'' @ arg_table args), dbs'))
                     | _ \<Rightarrow> (Inl SystemError, dbs))))"

section \<open>Notions used to state the properties\<close>


text \<open>
  The engine takes the writer's statements: it opens the path, reads the text of
  \<^verbatim>\<open>_create_or_replace_table\<close> as the creation of this table with the schema's columns
  and accepts it on the database as it is, and, when there are rows, reads the text of
  \<^verbatim>\<open>_insert_rows\<close> as the insert into this table with the first row's keys and accepts
  it, with the data tuples, on the database holding the new table.
\<close>

definition engine_takes_write ::
  "'f engine \<Rightarrow> (string \<Rightarrow> 'f database) \<Rightarrow> string \<Rightarrow> string \<Rightarrow> string pydict
     \<Rightarrow> 'f pyval pydict list \<Rightarrow> bool" where
  "engine_takes_write eng dbs db_path table_name schema rows =
     (opens eng db_path
      \<and> reads eng (create_sql table_name schema) = Some (CreateOrReplaceTable table_name schema)
      \<and> accepts eng (dbs db_path) (CreateOrReplaceTable table_name schema) []
      \<and> (rows \<noteq> [] \<longrightarrow>
           reads eng (insert_sql table_name (insert_cols rows))
             = Some (InsertInto table_name (insert_cols rows) (length (insert_cols rows)))
           \<and> accepts eng ((dbs db_path)(table_name \<mapsto> \<lparr>columns = schema, tuples = []\<rparr>))
               (InsertInto table_name (insert_cols rows) (length (insert_cols rows)))
               (insert_data rows)))"

definition engine_takes_load ::
  "'f engine \<Rightarrow> 'f python \<Rightarrow> (string \<Rightarrow> 'f database) \<Rightarrow> string \<Rightarrow> string \<Rightarrow> 'f pyval pydict
     \<Rightarrow> bool" where
  "engine_takes_load eng py dbs db_path table_name dictionary =
     engine_takes_write eng dbs db_path table_name
       (fst (schema_and_rows py dictionary)) (snd (schema_and_rows py dictionary))"

text \<open>
  A concrete runtime, engine and machine for the examples: floats are not used, \<^verbatim>\<open>str\<close>
  renders every object alike and the parser knows one text; the engine opens every path,
  reads the statements of the examples in their texts, accepts them and stores every value
  as it is; no database file exists yet.
\<close>

definition py_example :: "unit python" where
  "py_example = \<lparr>float_repr = (\<lambda>x. ''0.5''), str_of = (\<lambda>v. ''<object>''),
     json_loads = (\<lambda>text. if text = ''[1, 2, 3]'' then Some (PList [PInt 1, PInt 2, PInt 3]) else None)\<rparr>"

definition statement_text :: "statement \<Rightarrow> string" where
  "statement_text stmt =
     (case stmt of
        CreateOrReplaceTable t cols \<Rightarrow> create_sql t cols
      | InsertInto t cs n \<Rightarrow> insert_sql t cs)"

definition example_statements :: "statement list" where
  "example_statements =
     [CreateOrReplaceTable ''queuedata'' [(''record_id'', ''TEXT'')],
      CreateOrReplaceTable ''queuedata'' [(''record_id'', ''TEXT''), (''site'', ''TEXT'')],
      CreateOrReplaceTable ''queuedata''
        [(''record_id'', ''TEXT''), (''site'', ''TEXT''), (''capacity'', ''BIGINT'')],
      InsertInto ''queuedata'' [''record_id''] 1,
      InsertInto ''queuedata'' [''record_id'', ''site''] 2,
      InsertInto ''queuedata'' [''record_id'', ''site'', ''capacity''] 3]"

definition engine_example :: "unit engine" where
  "engine_example =
     \<lparr>opens = (\<lambda>path. True),
      reads = (\<lambda>text. find (\<lambda>stmt. statement_text stmt = text) example_statements),
      accepts = (\<lambda>con stmt data. True),
      stores = (\<lambda>kind v. v),
      on_other = (\<lambda>con text data. (Some StorageError, con))\<rparr>"

definition no_databases :: "string \<Rightarrow> unit database" where
  "no_databases = (\<lambda>path. Map.empty)"

section \<open>Properties of the kind merge\<close>

lemma order_get_eq:
  "order_get t = (if t = ''BIGINT'' then 0 else if t = ''DOUBLE'' then 1 else 2)"
  by (simp add: order_get_def TYPE_ORDER_def upt_rec)

lemma merge_type_cases:
  "merge_type t1 t2 =
     (if t1 = t2 then t1
      else if t1 \<in> {''BIGINT'', ''DOUBLE''} \<and> t2 \<in> {''BIGINT'', ''DOUBLE''} then ''DOUBLE''
      else ''TEXT'')"
  by (auto simp: merge_type_def order_get_eq TYPE_ORDER_def)

lemma spec_merge_cases:
  "spec_merge t1 t2 =
     (if t1 = ''BIGINT'' \<and> t2 = ''BIGINT'' then ''BIGINT''
      else if t1 \<in> {''BIGINT'', ''DOUBLE''} \<and> t2 \<in> {''BIGINT'', ''DOUBLE''} then ''DOUBLE''
      else ''TEXT'')"
  by (auto simp: spec_merge_def kind_of_name_def kind_max_def)

lemma merge_type_commute: "merge_type t1 t2 = merge_type t2 t1"
  by (auto simp: merge_type_cases)

lemma merge_type_assoc:
  "merge_type (merge_type t1 t2) t3 = merge_type t1 (merge_type t2 t3)"
  by (auto simp: merge_type_cases)

lemma merge_type_TEXT: "merge_type t ''TEXT'' = ''TEXT''" "merge_type ''TEXT'' t = ''TEXT''"
  by (auto simp: merge_type_cases)

section \<open>Dictionaries\<close>

lemma dict_keys_simps [simp]:
  "dict_keys [] = []" "dict_keys ((k, v) # d) = k # dict_keys d"
  "dict_keys (d @ e) = dict_keys d @ dict_keys e"
  by (simp_all add: dict_keys_def)

lemma dict_keys_set:
  "dict_keys (dict_set d k v) = (if k \<in> set (dict_keys d) then dict_keys d else dict_keys d @ [k])"
  by (induction d) auto

lemma dict_set_distinct: "distinct (dict_keys d) \<Longrightarrow> distinct (dict_keys (dict_set d k v))"
  by (simp add: dict_keys_set)

lemma dict_get_set: "dict_get (dict_set d k v) k' = (if k' = k then Some v else dict_get d k')"
  by (induction d) (auto simp: dict_get_def)

lemma dict_get_simps [simp]:
  "dict_get [] c = None" "dict_get ((k, v) # d) c = (if c = k then Some v else dict_get d c)"
  by (simp_all add: dict_get_def)

lemma dict_get_None: "dict_get d k = None \<longleftrightarrow> k \<notin> set (dict_keys d)"
  by (simp add: dict_get_def dict_keys_def map_of_eq_None_iff)

lemma dict_set_middle:
  "k \<notin> set (dict_keys pre) \<Longrightarrow> dict_set (pre @ (k, v) # post) k w = pre @ (k, w) # post"
  by (induction pre) auto

section \<open>Schema inference\<close>

lemma infer_items_row_gen:
  "distinct (dict_keys (pre @ kvs)) \<Longrightarrow>
   fst (infer_items py kvs (pre @ kvs) ct) = pre @ coerce_row py kvs"
proof (induction kvs arbitrary: pre ct)
  case Nil
  then show ?case by (simp add: coerce_row_def)
next
  case (Cons kv kvs)
  obtain k v where kv: "kv = (k, v)" by (cases kv)
  obtain val t where ct: "to_cell_value py v = (val, t)" by (cases "to_cell_value py v")
  from Cons.prems kv have notin: "k \<notin> set (dict_keys pre)" by auto
  from Cons.prems kv have d: "distinct (dict_keys ((pre @ [(k, val)]) @ kvs))" by auto
  have "fst (infer_items py kvs ((pre @ [(k, val)]) @ kvs) ct') = (pre @ [(k, val)]) @ coerce_row py kvs" for ct'
    using Cons.IH [OF d] .
  then show ?case
    using notin by (simp add: kv ct dict_set_middle coerce_row_def)
qed

lemma infer_items_row:
  "distinct (dict_keys row) \<Longrightarrow> fst (infer_items py row row ct) = coerce_row py row"
  using infer_items_row_gen [of "[]" row py ct] by simp

lemma infer_items_row_keys:
  "set (dict_keys kvs) \<subseteq> set (dict_keys row) \<Longrightarrow>
   dict_keys (fst (infer_items py kvs row ct)) = dict_keys row"
proof (induction kvs arbitrary: row ct)
  case Nil
  then show ?case by simp
next
  case (Cons kv kvs)
  obtain k v where kv: "kv = (k, v)" by (cases kv)
  obtain val t where ct: "to_cell_value py v = (val, t)" by (cases "to_cell_value py v")
  from Cons.prems kv have k: "k \<in> set (dict_keys row)" by auto
  then have keys: "dict_keys (dict_set row k val) = dict_keys row" by (simp add: dict_keys_set)
  with Cons.prems have "set (dict_keys kvs) \<subseteq> set (dict_keys (dict_set row k val))"
    by (auto simp: kv)
  from Cons.IH [OF this] show ?case by (simp add: kv ct keys)
qed

lemma infer_items_schema_keys:
  "set (dict_keys (snd (infer_items py kvs row ct))) = set (dict_keys ct) \<union> set (dict_keys kvs)"
proof (induction kvs arbitrary: row ct)
  case Nil
  then show ?case by simp
next
  case (Cons kv kvs)
  obtain k v where kv: "kv = (k, v)" by (cases kv)
  obtain val t where ct: "to_cell_value py v = (val, t)" by (cases "to_cell_value py v")
  show ?case by (auto simp: kv ct Cons.IH dict_keys_set)
qed

lemma infer_items_schema_distinct:
  "distinct (dict_keys ct) \<Longrightarrow> distinct (dict_keys (snd (infer_items py kvs row ct)))"
proof (induction kvs arbitrary: row ct)
  case Nil
  then show ?case by simp
next
  case (Cons kv kvs)
  obtain k v where kv: "kv = (k, v)" by (cases kv)
  obtain val t where ct: "to_cell_value py v = (val, t)" by (cases "to_cell_value py v")
  show ?case using Cons.prems by (simp add: kv ct Cons.IH dict_set_distinct)
qed

lemma infer_items_schema_prefix:
  "\<exists>ks. dict_keys (snd (infer_items py kvs row ct)) = dict_keys ct @ ks"
proof (induction kvs arbitrary: row ct)
  case Nil
  then show ?case by simp
next
  case (Cons kv kvs)
  obtain k v where kv: "kv = (k, v)" by (cases kv)
  obtain val t where ct: "to_cell_value py v = (val, t)" by (cases "to_cell_value py v")
  let ?ct' = "dict_set ct k (case dict_get ct k of None \<Rightarrow> t | Some p \<Rightarrow> merge_type p t)"
  from Cons.IH [of "dict_set row k val" ?ct']
  obtain ks where "dict_keys (snd (infer_items py kvs (dict_set row k val) ?ct')) = dict_keys ?ct' @ ks"
    by blast
  then show ?case by (auto simp: kv ct dict_keys_set)
qed


lemma infer_items_TEXT_stays:
  "dict_get ct c = Some ''TEXT'' \<Longrightarrow> dict_get (snd (infer_items py kvs row ct)) c = Some ''TEXT''"
proof (induction kvs arbitrary: row ct)
  case Nil
  then show ?case by simp
next
  case (Cons kv kvs)
  obtain k v where kv: "kv = (k, v)" by (cases kv)
  obtain val t where ct: "to_cell_value py v = (val, t)" by (cases "to_cell_value py v")
  let ?ct' = "dict_set ct k (case dict_get ct k of None \<Rightarrow> t | Some p \<Rightarrow> merge_type p t)"
  from Cons.prems have "dict_get ?ct' c = Some ''TEXT''"
    by (auto simp: dict_get_set merge_type_TEXT)
  from Cons.IH [OF this] show ?case by (simp add: kv ct)
qed

lemma infer_items_TEXT_seen:
  "(c, v) \<in> set kvs \<Longrightarrow> snd (to_cell_value py v) = ''TEXT'' \<Longrightarrow>
   dict_get (snd (infer_items py kvs row ct)) c = Some ''TEXT''"
proof (induction kvs arbitrary: row ct)
  case Nil
  then show ?case by simp
next
  case (Cons kv kvs)
  obtain k w where kv: "kv = (k, w)" by (cases kv)
  obtain val t where ct: "to_cell_value py w = (val, t)" by (cases "to_cell_value py w")
  let ?ct' = "dict_set ct k (case dict_get ct k of None \<Rightarrow> t | Some p \<Rightarrow> merge_type p t)"
  show ?case
  proof (cases "(c, v) = (k, w)")
    case True
    with Cons.prems ct have "dict_get ?ct' c = Some ''TEXT''"
      by (auto simp: dict_get_set merge_type_TEXT split: option.splits)
    from infer_items_TEXT_stays [OF this] show ?thesis by (simp add: kv ct)
  next
    case False
    with Cons.prems kv have "(c, v) \<in> set kvs" by auto
    from Cons.IH [OF this Cons.prems(2)] show ?thesis by (simp add: kv ct)
  qed
qed

lemma infer_rows_keys:
  "map dict_keys (fst (infer_rows py rows ct)) = map dict_keys rows"
  by (induction rows arbitrary: ct) (simp_all add: Let_def split_beta infer_items_row_keys)

lemma infer_rows_coerce:
  "list_all (\<lambda>r. distinct (dict_keys r)) rows \<Longrightarrow>
   fst (infer_rows py rows ct) = map (coerce_row py) rows"
  by (induction rows arbitrary: ct) (simp_all add: Let_def split_beta infer_items_row)

lemma infer_rows_schema_keys:
  "set (dict_keys (snd (infer_rows py rows ct))) =
   set (dict_keys ct) \<union> (\<Union>r \<in> set rows. set (dict_keys r))"
  by (induction rows arbitrary: ct)
     (auto simp: Let_def split_beta infer_items_schema_keys)

lemma infer_rows_schema_distinct:
  "distinct (dict_keys ct) \<Longrightarrow> distinct (dict_keys (snd (infer_rows py rows ct)))"
  by (induction rows arbitrary: ct)
     (simp_all add: Let_def split_beta infer_items_schema_distinct)

lemma infer_rows_schema_prefix:
  "\<exists>ks. dict_keys (snd (infer_rows py rows ct)) = dict_keys ct @ ks"
proof (induction rows arbitrary: ct)
  case Nil
  then show ?case by simp
next
  case (Cons row rows)
  obtain ks1 where k1: "dict_keys (snd (infer_items py row row ct)) = dict_keys ct @ ks1"
    using infer_items_schema_prefix by blast
  obtain ks2 where "dict_keys (snd (infer_rows py rows (snd (infer_items py row row ct)))) =
      dict_keys (snd (infer_items py row row ct)) @ ks2"
    using Cons.IH by blast
  with k1 show ?case by (simp add: Let_def split_beta)
qed

lemma infer_rows_TEXT_stays:
  "dict_get ct c = Some ''TEXT'' \<Longrightarrow> dict_get (snd (infer_rows py rows ct)) c = Some ''TEXT''"
  by (induction rows arbitrary: ct)
     (simp_all add: Let_def split_beta infer_items_TEXT_stays)

lemma infer_rows_TEXT_seen:
  "r \<in> set rows \<Longrightarrow> (c, v) \<in> set r \<Longrightarrow> snd (to_cell_value py v) = ''TEXT'' \<Longrightarrow>
   dict_get (snd (infer_rows py rows ct)) c = Some ''TEXT''"
proof (induction rows arbitrary: ct)
  case Nil
  then show ?case by simp
next
  case (Cons row rows)
  show ?case
  proof (cases "r = row")
    case True
    with Cons.prems have "dict_get (snd (infer_items py row row ct)) c = Some ''TEXT''"
      by (simp add: infer_items_TEXT_seen)
    then show ?thesis
      by (simp add: Let_def split_beta infer_rows_TEXT_stays)
  next
    case False
    with Cons.prems have "r \<in> set rows" by simp
    from Cons.IH [OF this Cons.prems(2,3)] show ?thesis
      by (simp add: Let_def split_beta)
  qed
qed

lemma coerce_row_keys [simp]: "dict_keys (coerce_row py row) = dict_keys row"
  by (induction row) (auto simp: coerce_row_def)

section \<open>The rows built from the input\<close>

lemma fold_set_keys:
  "set (dict_keys (fold (\<lambda>(k, v) row. dict_set row k v) items row)) =
   set (dict_keys row) \<union> set (dict_keys items)"
  by (induction items arbitrary: row) (auto simp: dict_keys_set split: if_splits)

lemma fold_set_distinct:
  "distinct (dict_keys row) \<Longrightarrow>
   distinct (dict_keys (fold (\<lambda>(k, v) row. dict_set row k v) items row))"
  by (induction items arbitrary: row) (auto simp: dict_set_distinct)

lemma fold_set_prefix:
  "\<exists>ks. dict_keys (fold (\<lambda>(k, v) row. dict_set row k v) items row) = dict_keys row @ ks"
proof (induction items arbitrary: row)
  case Nil
  then show ?case by simp
next
  case (Cons kv items)
  obtain k v where kv: "kv = (k, v)" by (cases kv)
  obtain ks where "dict_keys (fold (\<lambda>(k, v) row. dict_set row k v) items (dict_set row k v)) =
      dict_keys (dict_set row k v) @ ks"
    using Cons.IH by blast
  then show ?case by (auto simp: kv dict_keys_set)
qed

lemma fold_set_get:
  "distinct (dict_keys items) \<Longrightarrow>
   dict_get (fold (\<lambda>(k, v) row. dict_set row k v) items row) c =
     (case dict_get items c of None \<Rightarrow> dict_get row c | Some v \<Rightarrow> Some v)"
proof (induction items arbitrary: row)
  case Nil
  then show ?case by simp
next
  case (Cons kv items)
  obtain k v where kv: "kv = (k, v)" by (cases kv)
  from Cons.prems kv have d: "distinct (dict_keys items)" and k: "dict_get items k = None"
    by (auto simp: dict_get_None)
  show ?case
    using k by (auto simp: kv Cons.IH [OF d] dict_get_set split: option.splits)
qed

lemma make_row_distinct: "distinct (dict_keys (make_row rec_id payload))"
  by (cases payload) (simp_all add: make_row_def fold_set_distinct)

lemma make_row_first: "\<exists>ks. dict_keys (make_row rec_id payload) = ''record_id'' # ks"
proof (cases payload)
  case (PDict items)
  obtain ks where
    "dict_keys (fold (\<lambda>(k, v) row. dict_set row k v) items [(''record_id'', PStr rec_id)]) =
       ''record_id'' # ks"
    using fold_set_prefix [of items "[(''record_id'', PStr rec_id)]"] by auto
  with PDict show ?thesis by (simp add: make_row_def)
qed (simp_all add: make_row_def)

lemma make_row_no_dict:
  "\<not> isinstance_dict payload \<Longrightarrow>
   make_row rec_id payload = [(''record_id'', PStr rec_id), (''data'', payload)]"
  by (cases payload) (simp_all add: make_row_def)

lemma build_rows_distinct: "list_all (\<lambda>r. distinct (dict_keys r)) (build_rows dictionary)"
  by (induction dictionary) (auto simp: build_rows_def make_row_distinct)

lemma build_rows_first:
  "r \<in> set (build_rows dictionary) \<Longrightarrow> \<exists>ks. dict_keys r = ''record_id'' # ks"
  using make_row_first by (auto simp: build_rows_def)


section \<open>The schema and the rows that reach the writer\<close>

lemma infer_schema_eq:
  "infer_schema py rows = (snd (infer_rows py rows []), fst (infer_rows py rows []))"
  by (simp add: infer_schema_def split_beta)

lemma build_rows_Nil [simp]: "build_rows [] = []"
  by (simp add: build_rows_def)

lemma build_rows_Nil_iff [simp]: "build_rows dictionary = [] \<longleftrightarrow> dictionary = []"
  by (simp add: build_rows_def)

lemma infer_rows_build_has_record_id:
  assumes "dictionary \<noteq> []"
  shows "''record_id'' \<in> set (dict_keys (snd (infer_rows py (build_rows dictionary) ct)))"
proof -
  from assms obtain r where r: "r \<in> set (build_rows dictionary)"
    by (cases "build_rows dictionary") auto
  then obtain ks where "dict_keys r = ''record_id'' # ks"
    using build_rows_first by blast
  then have "''record_id'' \<in> set (dict_keys r)" by simp
  with r show ?thesis
    unfolding infer_rows_schema_keys by blast
qed

lemma schema_and_rows_Nil: "schema_and_rows py [] = ([(''record_id'', ''TEXT'')], [])"
  by (simp add: schema_and_rows_def infer_schema_eq ensure_record_id_def)

lemma schema_and_rows_Cons:
  "dictionary \<noteq> [] \<Longrightarrow>
   schema_and_rows py dictionary =
     (dict_set (snd (infer_rows py (build_rows dictionary) [])) ''record_id'' ''TEXT'',
      map (coerce_row py) (build_rows dictionary))"
  by (simp add: schema_and_rows_def infer_schema_eq ensure_record_id_def Let_def
      infer_rows_build_has_record_id infer_rows_coerce build_rows_distinct)

lemma schema_keys:
  "set (dict_keys (fst (schema_and_rows py dictionary))) =
   {''record_id''} \<union> (\<Union>r \<in> set (build_rows dictionary). set (dict_keys r))"
proof (cases "dictionary = []")
  case True
  then show ?thesis by (simp add: schema_and_rows_Nil)
next
  case False
  then show ?thesis
    by (auto simp: schema_and_rows_Cons dict_keys_set infer_rows_schema_keys split: if_splits)
qed

lemma schema_distinct: "distinct (dict_keys (fst (schema_and_rows py dictionary)))"
proof (cases "dictionary = []")
  case True
  then show ?thesis by (simp add: schema_and_rows_Nil)
next
  case False
  have "distinct (dict_keys (snd (infer_rows py (build_rows dictionary) [])))"
    by (rule infer_rows_schema_distinct) simp
  with False show ?thesis
    by (simp add: schema_and_rows_Cons dict_set_distinct)
qed


lemma schema_first:
  "\<exists>rest. fst (schema_and_rows py dictionary) = (''record_id'', ''TEXT'') # rest"
proof (cases dictionary)
  case Nil
  then show ?thesis by (simp add: schema_and_rows_Nil)
next
  case (Cons rec recs)
  obtain rec_id payload where rec: "rec = (rec_id, payload)" by (cases rec)
  obtain ks where ks: "dict_keys (make_row rec_id payload) = ''record_id'' # ks"
    using make_row_first by blast
  then obtain v row where row: "make_row rec_id payload = (''record_id'', v) # row"
    by (cases "make_row rec_id payload") (auto simp: dict_keys_def)
  let ?rows = "build_rows recs"
  obtain val t where ct: "to_cell_value py v = (val, t)" by (cases "to_cell_value py v")
  let ?S = "snd (infer_rows py (build_rows dictionary) [])"
  have "\<exists>ks. dict_keys ?S = dict_keys [(''record_id'', t)] @ ks"
  proof -
    obtain ks1 where "dict_keys (snd (infer_items py row ((''record_id'', val) # row) [(''record_id'', t)]))
        = dict_keys [(''record_id'', t)] @ ks1"
      using infer_items_schema_prefix by blast
    moreover obtain ks2 where "dict_keys (snd (infer_rows py ?rows
          (snd (infer_items py row ((''record_id'', val) # row) [(''record_id'', t)])))) =
        dict_keys (snd (infer_items py row ((''record_id'', val) # row) [(''record_id'', t)])) @ ks2"
      using infer_rows_schema_prefix by blast
    ultimately show ?thesis
      by (simp add: Cons rec build_rows_def row ct Let_def split_beta)
  qed
  then obtain t' rest where "?S = (''record_id'', t') # rest"
    by (cases ?S) (auto simp: dict_keys_def)
  then show ?thesis
    by (simp add: schema_and_rows_Cons Cons)
qed

section \<open>The writer\<close>

lemma stored_tuple_length [simp]: "length (stored_tuple eng cols cs d) = length cols"
  by (simp add: stored_tuple_def)

lemma write_table_ok:
  assumes "schema \<noteq> []" and "distinct (dict_keys schema)"
    and "rows \<noteq> [] \<Longrightarrow> insert_cols rows \<noteq> [] \<and> distinct (insert_cols rows)
           \<and> set (insert_cols rows) \<subseteq> set (dict_keys schema)"
    and "engine_takes_write eng dbs db_path table_name schema rows"
  shows "write_table eng dbs db_path table_name schema rows =
     (Inr (), dbs(db_path := (dbs db_path)(table_name \<mapsto>
        \<lparr>columns = schema,
         tuples = map (stored_tuple eng schema (insert_cols rows)) (insert_data rows)\<rparr>)))"
proof -
  let ?create = "CreateOrReplaceTable table_name schema"
  let ?con1 = "(dbs db_path)(table_name \<mapsto> \<lparr>columns = schema, tuples = []\<rparr>)"
  from assms(4) have op: "opens eng db_path"
    and rc: "reads eng (create_sql table_name schema) = Some ?create"
    and ac: "accepts eng (dbs db_path) ?create []"
    by (simp_all add: engine_takes_write_def)
  from assms(1,2) have wc: "well_formed (dbs db_path) ?create []"
    by (simp add: dict_keys_def)
  from rc ac wc have create:
    "create_or_replace_table eng (dbs db_path) table_name schema = (None, ?con1)"
    by (simp add: create_or_replace_table_def execute_def)
  show ?thesis
  proof (cases "rows = []")
    case True
    with op create show ?thesis
      by (simp add: write_table_def insert_rows_def insert_data_def)
  next
    case False
    let ?ins = "InsertInto table_name (insert_cols rows) (length (insert_cols rows))"
    from assms(4) False have ri: "reads eng (insert_sql table_name (insert_cols rows)) = Some ?ins"
      and ai: "accepts eng ?con1 ?ins (insert_data rows)"
      by (simp_all add: engine_takes_write_def)
    from assms(3) False have c: "insert_cols rows \<noteq> []" "distinct (insert_cols rows)"
      "set (insert_cols rows) \<subseteq> set (dict_keys schema)" by auto
    have len: "list_all (\<lambda>d. length d = length (insert_cols rows)) (insert_data rows)"
      by (simp add: insert_data_def list_all_iff)
    from c(3) have sub: "list_all (\<lambda>c. c \<in> set (map fst schema)) (insert_cols rows)"
      by (auto simp: list_all_iff dict_keys_def)
    from c len sub have wi: "well_formed ?con1 ?ins (insert_data rows)"
      by simp
    from ri ai wi False have ins:
      "insert_rows eng ?con1 table_name rows =
         (None, ?con1(table_name \<mapsto> \<lparr>columns = schema,
             tuples = map (stored_tuple eng schema (insert_cols rows)) (insert_data rows)\<rparr>))"
      by (simp add: insert_rows_def execute_def)
    from op create ins show ?thesis
      by (simp add: write_table_def)
  qed
qed

lemma insert_cols_ok:
  assumes "snd (schema_and_rows py dictionary) \<noteq> []"
  shows "insert_cols (snd (schema_and_rows py dictionary)) \<noteq> []
       \<and> distinct (insert_cols (snd (schema_and_rows py dictionary)))
       \<and> set (insert_cols (snd (schema_and_rows py dictionary)))
           \<subseteq> set (dict_keys (fst (schema_and_rows py dictionary)))"
proof -
  from assms have ne: "dictionary \<noteq> []"
    by (auto simp: schema_and_rows_Nil)
  then obtain rec recs where d: "dictionary = rec # recs" by (cases dictionary) auto
  obtain rec_id payload where rec: "rec = (rec_id, payload)" by (cases rec)
  have cols: "insert_cols (snd (schema_and_rows py dictionary)) = dict_keys (make_row rec_id payload)"
    using ne by (simp add: schema_and_rows_Cons insert_cols_def d rec build_rows_def)
  obtain ks where "dict_keys (make_row rec_id payload) = ''record_id'' # ks"
    using make_row_first by blast
  then have 1: "dict_keys (make_row rec_id payload) \<noteq> []" by simp
  have 2: "distinct (dict_keys (make_row rec_id payload))" by (rule make_row_distinct)
  have 3: "set (dict_keys (make_row rec_id payload))
      \<subseteq> set (dict_keys (fst (schema_and_rows py dictionary)))"
    by (auto simp: schema_keys d rec build_rows_def)
  from 1 2 3 show ?thesis by (simp add: cols)
qed

lemma dict_to_duckdb_eq:
  assumes "engine_takes_load eng py dbs db_path table_name dictionary"
  shows "dict_to_duckdb eng py dbs db_path table_name dictionary =
     (Inr (), dbs(db_path := (dbs db_path)(table_name \<mapsto>
        \<lparr>columns = fst (schema_and_rows py dictionary),
         tuples = map (stored_tuple eng (fst (schema_and_rows py dictionary))
                         (insert_cols (snd (schema_and_rows py dictionary))))
                    (insert_data (snd (schema_and_rows py dictionary)))\<rparr>)))"
proof -
  obtain rest where "fst (schema_and_rows py dictionary) = (''record_id'', ''TEXT'') # rest"
    using schema_first by blast
  then have ne: "fst (schema_and_rows py dictionary) \<noteq> []" by simp
  from assms have t: "engine_takes_write eng dbs db_path table_name
       (fst (schema_and_rows py dictionary)) (snd (schema_and_rows py dictionary))"
    by (simp add: engine_takes_load_def)
  show ?thesis
    unfolding dict_to_duckdb_def split_beta Let_def
    by (rule write_table_ok [OF ne schema_distinct insert_cols_ok t])
qed

lemma foldl_merge_TEXT: "foldl merge_type ''TEXT'' ts = ''TEXT''"
  by (induction ts) (simp_all add: merge_type_TEXT)

lemma dict_get_append_new:
  "k \<notin> set (dict_keys d) \<Longrightarrow> dict_get (d @ [(k, v)]) k = Some v"
  by (induction d) auto



lemma build_rows_nth:
  "i < length dictionary \<Longrightarrow> dictionary ! i = (rec_id, payload) \<Longrightarrow>
   build_rows dictionary ! i = make_row rec_id payload"
  by (simp add: build_rows_def)

lemma schema_rows_nth:
  "i < length dictionary \<Longrightarrow>
   snd (schema_and_rows py dictionary) ! i = coerce_row py (build_rows dictionary ! i)"
  by (cases "dictionary = []") (simp_all add: schema_and_rows_Cons build_rows_def)

lemma schema_get_other:
  "c \<noteq> ''record_id'' \<Longrightarrow> dictionary \<noteq> [] \<Longrightarrow>
   dict_get (fst (schema_and_rows py dictionary)) c
     = dict_get (snd (infer_rows py (build_rows dictionary) [])) c"
  by (simp add: schema_and_rows_Cons dict_get_set)

lemma schema_get_record_id:
  "dict_get (fst (schema_and_rows py dictionary)) ''record_id'' = Some ''TEXT''"
  by (cases "dictionary = []") (simp_all add: schema_and_rows_Nil schema_and_rows_Cons dict_get_set)

lemma ensure_record_id_get:
  "dict_get (fst (ensure_record_id schema rows)) ''record_id'' = Some ''TEXT''"
  by (simp add: ensure_record_id_def dict_get_set)

lemma dict_set_new: "k \<notin> set (dict_keys d) \<Longrightarrow> dict_set d k v = d @ [(k, v)]"
  by (induction d) auto


lemma create_sql_first_column:
  "schema = (c, t) # rest \<Longrightarrow>
   \<exists>more. create_sql table_name schema =
     ''CREATE OR REPLACE TABLE '' @ [CHR 0x22] @ table_name @ [CHR 0x22] @ '' (''
       @ [CHR 0x22] @ c @ [CHR 0x22] @ '' '' @ t @ more"
  by (cases rest) (auto simp: create_sql_def)

section \<open>The claims\<close>

subsection \<open>C3: the kind merge\<close>

text \<open>
  C3 reads the merge as the maximum in \<open>BIGINT < DOUBLE < TEXT\<close> with every unrecognized
  kind treated as \<open>TEXT\<close>. \<^verbatim>\<open>_merge_type\<close> returns its argument when both kinds are
  equal, before any lookup, so two equal unrecognized kinds merge to themselves and not to
  \<open>TEXT\<close>.
\<close>

theorem merge_type_counterexample:
  "merge_type ''FOO'' ''FOO'' = ''FOO'' \<and> spec_merge ''FOO'' ''FOO'' = ''TEXT''
   \<and> merge_type ''FOO'' ''FOO'' \<noteq> spec_merge ''FOO'' ''FOO''"
  by (simp add: merge_type_def spec_merge_def kind_of_name_def kind_max_def)

text \<open>
  C3, amended: \<open>merge_type t1 t2\<close> is \<open>t1\<close> when the two kinds are equal and the maximum in
  \<open>BIGINT < DOUBLE < TEXT\<close> (an unrecognized kind read as \<open>TEXT\<close>) otherwise; it is that
  maximum whenever one of the two is a recognized kind. For all strings the merge is
  associative, commutative and idempotent, \<open>BIGINT\<close> with \<open>DOUBLE\<close> gives \<open>DOUBLE\<close>,
  anything with \<open>TEXT\<close> gives \<open>TEXT\<close>, and a column at \<open>TEXT\<close> stays there under any
  sequence of further merges.
\<close>

theorem merge_type_is_max:
  "merge_type t1 t2 = (if t1 = t2 then t1 else spec_merge t1 t2)
   \<and> (t1 \<in> set TYPE_ORDER \<or> t2 \<in> set TYPE_ORDER \<longrightarrow> merge_type t1 t2 = spec_merge t1 t2)
   \<and> merge_type (merge_type t1 t2) t3 = merge_type t1 (merge_type t2 t3)
   \<and> merge_type t1 t2 = merge_type t2 t1
   \<and> merge_type t1 t1 = t1
   \<and> merge_type ''BIGINT'' ''DOUBLE'' = ''DOUBLE''
   \<and> merge_type t1 ''TEXT'' = ''TEXT'' \<and> merge_type ''TEXT'' t1 = ''TEXT''
   \<and> foldl merge_type ''TEXT'' ts = ''TEXT''"
proof -
  have 1: "merge_type t1 t2 = (if t1 = t2 then t1 else spec_merge t1 t2)"
    by (auto simp: merge_type_cases spec_merge_cases)
  have 2: "t1 \<in> set TYPE_ORDER \<or> t2 \<in> set TYPE_ORDER \<longrightarrow> merge_type t1 t2 = spec_merge t1 t2"
    by (auto simp: merge_type_cases spec_merge_cases TYPE_ORDER_def)
  have 3: "merge_type t1 t1 = t1" "merge_type ''BIGINT'' ''DOUBLE'' = ''DOUBLE''"
    by (simp_all add: merge_type_cases)
  from 1 2 3 show ?thesis
    using merge_type_assoc [of t1 t2 t3] merge_type_commute [of t1 t2]
      merge_type_TEXT [of t1] foldl_merge_TEXT [of ts]
    by blast
qed

theorem merge_type_is_max_witness:
  "''BIGINT'' \<in> set TYPE_ORDER
   \<and> merge_type ''BIGINT'' ''DOUBLE'' = spec_merge ''BIGINT'' ''DOUBLE''
   \<and> merge_type ''BIGINT'' ''DOUBLE'' = ''DOUBLE''
   \<and> merge_type (merge_type ''BIGINT'' ''DOUBLE'') ''FOO''
       = merge_type ''BIGINT'' (merge_type ''DOUBLE'' ''FOO'')
   \<and> merge_type ''BIGINT'' ''TEXT'' = ''TEXT''"
proof -
  have h: "''BIGINT'' \<in> set TYPE_ORDER" by (simp add: TYPE_ORDER_def)
  from h show ?thesis
    using merge_type_is_max [of "''BIGINT''" "''DOUBLE''" "''FOO''" "[]"]
    by blast
qed

subsection \<open>C2: the classification of a value\<close>

text \<open>
  C2: \<^verbatim>\<open>_to_cell_value\<close> maps \<open>None\<close> to \<open>(None, TEXT)\<close>, an integer to itself with
  \<open>BIGINT\<close>, a float to itself with \<open>DOUBLE\<close>, a string to itself with \<open>TEXT\<close>, and
  every other value (a boolean, a list, a dictionary, any other object) to a string of kind
  \<open>TEXT\<close>: its JSON text, or \<^verbatim>\<open>str(v)\<close> when \<^verbatim>\<open>json.dumps\<close> fails. A boolean is
  never \<open>BIGINT\<close>.
\<close>

theorem to_cell_value_classification:
  "to_cell_value py PNone = (PNone, ''TEXT'')
   \<and> to_cell_value py (PInt i) = (PInt i, ''BIGINT'')
   \<and> to_cell_value py (PFloat x) = (PFloat x, ''DOUBLE'')
   \<and> to_cell_value py (PStr s) = (PStr s, ''TEXT'')
   \<and> (v \<noteq> PNone \<and> (\<forall>n. v \<noteq> PInt n) \<and> (\<forall>y. v \<noteq> PFloat y) \<and> (\<forall>z. v \<noteq> PStr z) \<longrightarrow>
        to_cell_value py v =
          (PStr (case json_dumps (float_repr py) v of Some js \<Rightarrow> js | None \<Rightarrow> str_of py v),
           ''TEXT''))
   \<and> to_cell_value py (PBool b) = (PStr (if b then ''true'' else ''false''), ''TEXT'')
   \<and> snd (to_cell_value py (PBool b)) \<noteq> ''BIGINT''"
proof -
  have other: "to_cell_value py v =
      (PStr (case json_dumps (float_repr py) v of Some js \<Rightarrow> js | None \<Rightarrow> str_of py v), ''TEXT'')"
    if "v \<noteq> PNone" "\<forall>n. v \<noteq> PInt n" "\<forall>y. v \<noteq> PFloat y" "\<forall>z. v \<noteq> PStr z"
    using that by (cases v) (simp_all add: to_cell_value_def is_int_def is_float_def split: option.splits)
  show ?thesis
    using other by (simp add: to_cell_value_def is_int_def is_float_def)
qed

theorem to_cell_value_classification_witness:
  "to_cell_value py_example (PList [PInt 1, PInt 2, PInt 3]) = (PStr ''[1, 2, 3]'', ''TEXT'')
   \<and> to_cell_value py_example (PList [PObj ''set'']) = (PStr ''<object>'', ''TEXT'')
   \<and> to_cell_value py_example (PBool True) = (PStr ''true'', ''TEXT'')"
proof -
  have a: "int_repr 1 = ''1''" "int_repr 2 = ''2''" "int_repr 3 = ''3''"
    by code_simp+
  have c: "str_of py_example (PList [PObj ''set'']) = ''<object>''"
    by (simp add: py_example_def)
  show ?thesis
    using to_cell_value_classification [of py_example 0 "()" "''''" "PList [PInt 1, PInt 2, PInt 3]" True]
      to_cell_value_classification [of py_example 0 "()" "''''" "PList [PObj ''set'']" True]
    by (simp add: a c)
qed

subsection \<open>C7: a top level that is not a dictionary\<close>

text \<open>
  C7: when the file exists and parses to a value that is not a dictionary, \<^verbatim>\<open>main\<close> raises
  \<^verbatim>\<open>SystemError\<close> (the specification's \<open>SchemaViolation\<close>) and leaves every database as it
  was: no statement is executed.
\<close>

theorem main_rejects_non_dict:
  assumes "files (arg_json args) = Some text" and "json_loads py text = Some data"
    and "\<forall>d. data \<noteq> PDict d"
  shows "main eng py files args dbs = (Inl SystemError, dbs)"
  using assms by (cases data) (simp_all add: main_def)

theorem main_rejects_non_dict_witness:
  "main engine_example py_example [''queuedata.json'' \<mapsto> ''[1, 2, 3]'']
     \<lparr>arg_json = ''queuedata.json'', arg_db = ''queuedata.db'', arg_table = ''queuedata''\<rparr>
     no_databases = (Inl SystemError, no_databases)"
proof -
  have 1: "[''queuedata.json'' \<mapsto> ''[1, 2, 3]'']
     (arg_json \<lparr>arg_json = ''queuedata.json'', arg_db = ''queuedata.db'', arg_table = ''queuedata''\<rparr>)
     = Some ''[1, 2, 3]''" by simp
  have 2: "json_loads py_example ''[1, 2, 3]'' = Some (PList [PInt 1, PInt 2, PInt 3])"
    by (simp add: py_example_def)
  have 3: "\<forall>d. PList [PInt 1, PInt 2, PInt (3::int)] \<noteq> (PDict d :: unit pyval)" by simp
  show ?thesis
    using 1 2 3 main_rejects_non_dict [of "[''queuedata.json'' \<mapsto> ''[1, 2, 3]'']"
      "\<lparr>arg_json = ''queuedata.json'', arg_db = ''queuedata.db'', arg_table = ''queuedata''\<rparr>"
      "''[1, 2, 3]''" py_example "PList [PInt 1, PInt 2, PInt 3]" engine_example no_databases]
    by blast
qed

subsection \<open>C4: a record whose payload is a dictionary\<close>

text \<open>
  C4: for a record whose payload is a dictionary, the row's field set is \<open>record_id\<close>
  together with the payload's keys, \<open>record_id\<close> comes first, every payload field keeps
  its value, and \<open>record_id\<close> holds the record's key unless the payload has a field
  \<open>record_id\<close>, whose value then replaces it.
\<close>

theorem mapping_payload_row:
  assumes "i < length dictionary" and "dictionary ! i = (rec_id, PDict items)"
    and "distinct (dict_keys items)"
  shows "set (dict_keys (build_rows dictionary ! i)) = {''record_id''} \<union> set (dict_keys items)
    \<and> dict_get (build_rows dictionary ! i) ''record_id''
        = (case dict_get items ''record_id'' of None \<Rightarrow> Some (PStr rec_id) | Some v \<Rightarrow> Some v)
    \<and> (\<forall>c \<in> set (dict_keys items). dict_get (build_rows dictionary ! i) c = dict_get items c)
    \<and> (\<exists>ks. dict_keys (build_rows dictionary ! i) = ''record_id'' # ks)"
proof -
  let ?row = "build_rows dictionary ! i"
  have row: "?row = fold (\<lambda>(k, v) row. dict_set row k v) items [(''record_id'', PStr rec_id)]"
    using assms(1,2) by (simp add: build_rows_nth make_row_def)
  have 1: "set (dict_keys ?row) = {''record_id''} \<union> set (dict_keys items)"
    by (simp add: row fold_set_keys)
  have get: "dict_get ?row c =
      (case dict_get items c of None \<Rightarrow> dict_get [(''record_id'', PStr rec_id)] c | Some v \<Rightarrow> Some v)"
    for c
    unfolding row by (rule fold_set_get [OF assms(3)])
  have 2: "dict_get ?row ''record_id''
        = (case dict_get items ''record_id'' of None \<Rightarrow> Some (PStr rec_id) | Some v \<Rightarrow> Some v)"
    by (simp add: get split: option.splits)
  have 3: "dict_get ?row c = dict_get items c" if "c \<in> set (dict_keys items)" for c
  proof -
    from that obtain v where "dict_get items c = Some v"
      using dict_get_None [of items c] by (cases "dict_get items c") auto
    then show ?thesis by (simp add: get)
  qed
  have 4: "\<exists>ks. dict_keys ?row = ''record_id'' # ks"
    using assms(1,2) make_row_first [of rec_id "PDict items"] by (simp add: build_rows_nth)
  from 1 2 3 4 show ?thesis by blast
qed

theorem mapping_payload_row_witness:
  "set (dict_keys (build_rows
       [(''q1'', PDict [(''site'', PStr ''CERN''), (''record_id'', PInt 7 :: unit pyval)])] ! 0))
     = {''record_id''} \<union> set (dict_keys [(''site'', PStr ''CERN''), (''record_id'', PInt 7 :: unit pyval)])
   \<and> dict_get (build_rows
       [(''q1'', PDict [(''site'', PStr ''CERN''), (''record_id'', PInt 7 :: unit pyval)])] ! 0)
        ''record_id'' = Some (PInt 7)
   \<and> dict_get (build_rows [(''q2'', PDict [(''site'', PStr ''CERN'' :: unit pyval)])] ! 0) ''record_id''
       = Some (PStr ''q2'')"
proof -
  let ?p1 = "[(''site'', PStr ''CERN''), (''record_id'', PInt 7 :: unit pyval)]"
  let ?p2 = "[(''site'', PStr ''CERN'' :: unit pyval)]"
  have d1: "distinct (dict_keys ?p1)" by simp
  have d2: "distinct (dict_keys ?p2)" by simp
  have i1: "0 < length [(''q1'', PDict ?p1)]" "[(''q1'', PDict ?p1)] ! 0 = (''q1'', PDict ?p1)"
    by simp_all
  have i2: "0 < length [(''q2'', PDict ?p2)]" "[(''q2'', PDict ?p2)] ! 0 = (''q2'', PDict ?p2)"
    by simp_all
  note t1 = mapping_payload_row [OF i1 d1]
  note t2 = mapping_payload_row [OF i2 d2]
  have g1: "dict_get ?p1 ''record_id'' = Some (PInt 7)" by simp
  have g2: "dict_get ?p2 ''record_id'' = None" by simp
  from t1 [THEN conjunct1] t1 [THEN conjunct2, THEN conjunct1] t2 [THEN conjunct2, THEN conjunct1]
  show ?thesis
    by (simp only: g1 g2 option.case simp_thms)
qed

subsection \<open>C5: a record whose payload is not a dictionary\<close>

text \<open>
  C5: for a record whose payload is not a dictionary the row is exactly \<open>record_id\<close> with
  the key and \<open>data\<close> with the payload; after inference \<open>data\<close> holds the payload's
  storable form, and for a list payload that is its JSON text, with the column \<open>data\<close> of
  kind \<open>TEXT\<close> in the final schema whatever the other records hold.
\<close>

theorem non_mapping_payload_row:
  assumes "i < length dictionary" and "dictionary ! i = (rec_id, payload)"
    and "\<forall>items. payload \<noteq> PDict items"
  shows "build_rows dictionary ! i = [(''record_id'', PStr rec_id), (''data'', payload)]
    \<and> snd (schema_and_rows py dictionary) ! i
        = [(''record_id'', PStr rec_id), (''data'', fst (to_cell_value py payload))]
    \<and> (\<forall>xs js. payload = PList xs \<and> json_dumps (float_repr py) (PList xs) = Some js \<longrightarrow>
          snd (schema_and_rows py dictionary) ! i
            = [(''record_id'', PStr rec_id), (''data'', PStr js)]
          \<and> dict_get (fst (schema_and_rows py dictionary)) ''data'' = Some ''TEXT'')"
proof -
  from assms(3) have nd: "\<not> isinstance_dict payload" by (cases payload) simp_all
  have row: "build_rows dictionary ! i = [(''record_id'', PStr rec_id), (''data'', payload)]"
    using assms(1,2) nd by (simp add: build_rows_nth make_row_no_dict)
  have rid: "to_cell_value py (PStr rec_id) = (PStr rec_id, ''TEXT'')"
    by (simp add: to_cell_value_def is_int_def is_float_def)
  have crow: "snd (schema_and_rows py dictionary) ! i
        = [(''record_id'', PStr rec_id), (''data'', fst (to_cell_value py payload))]"
    using assms(1) by (simp add: schema_rows_nth row coerce_row_def rid)
  have lst: "snd (schema_and_rows py dictionary) ! i
            = [(''record_id'', PStr rec_id), (''data'', PStr js)]
          \<and> dict_get (fst (schema_and_rows py dictionary)) ''data'' = Some ''TEXT''"
    if p: "payload = PList xs" and js: "json_dumps (float_repr py) (PList xs) = Some js" for xs js
  proof -
    from js have tc: "to_cell_value py (PList xs) = (PStr js, ''TEXT'')"
      by (simp add: to_cell_value_def is_int_def is_float_def)
    from assms(1) have ne: "dictionary \<noteq> []" by auto
    from assms(1) have "build_rows dictionary ! i \<in> set (build_rows dictionary)"
      by (simp add: build_rows_def)
    moreover have "(''data'', payload) \<in> set (build_rows dictionary ! i)"
      by (simp add: row)
    moreover have "snd (to_cell_value py payload) = ''TEXT''"
      by (simp add: p tc)
    ultimately have "dict_get (snd (infer_rows py (build_rows dictionary) [])) ''data'' = Some ''TEXT''"
      by (rule infer_rows_TEXT_seen)
    with ne have "dict_get (fst (schema_and_rows py dictionary)) ''data'' = Some ''TEXT''"
      by (simp add: schema_get_other)
    with crow p tc show ?thesis by simp
  qed
  from row crow lst show ?thesis by blast
qed

theorem non_mapping_payload_row_witness:
  "build_rows [(''q1'', PList [PInt 1, PInt 2, PInt 3 :: unit pyval])] ! 0
     = [(''record_id'', PStr ''q1''), (''data'', PList [PInt 1, PInt 2, PInt 3])]
   \<and> snd (schema_and_rows py_example [(''q1'', PList [PInt 1, PInt 2, PInt 3])]) ! 0
     = [(''record_id'', PStr ''q1''), (''data'', PStr ''[1, 2, 3]'')]
   \<and> dict_get (fst (schema_and_rows py_example [(''q1'', PList [PInt 1, PInt 2, PInt 3])])) ''data''
     = Some ''TEXT''"
proof -
  have js: "json_dumps (float_repr py_example) (PList [PInt 1, PInt 2, PInt 3]) = Some ''[1, 2, 3]''"
    by code_simp
  have h1: "0 < length [(''q1'', PList [PInt 1, PInt 2, PInt 3 :: unit pyval])]" by simp
  have h2: "[(''q1'', PList [PInt 1, PInt 2, PInt 3 :: unit pyval])] ! 0
     = (''q1'', PList [PInt 1, PInt 2, PInt 3])" by simp
  have h3: "\<forall>items. PList [PInt 1, PInt 2, PInt 3 :: unit pyval] \<noteq> PDict items" by simp
  note t = non_mapping_payload_row [OF h1 h2 h3, of py_example]
  note c = t [THEN conjunct2, THEN conjunct2, rule_format,
      of "[PInt 1, PInt 2, PInt 3]" "''[1, 2, 3]''", OF conjI [OF refl js]]
  from t [THEN conjunct1] c show ?thesis
    by (simp only: simp_thms)
qed

subsection \<open>C8: the empty input\<close>



subsection \<open>C9: running twice\<close>



subsection \<open>C1: the columns of the table and the nulls\<close>




subsection \<open>C6: the column \<open>record_id\<close> is always \<open>TEXT\<close>\<close>

text \<open>
  C6: for every input the final schema has \<open>record_id\<close> with kind \<open>TEXT\<close>, whatever the
  observed values classified as, and so has the table whenever the engine takes the
  statements. For any list of rows, lines 117 to 123 leave \<open>record_id\<close> as \<open>TEXT\<close> in
  the schema. When no row has a field \<open>record_id\<close>, the column is appended to the schema
  and every row is kept as inference left it and extended by \<open>record_id\<close> with value
  null; otherwise the schema keeps its columns and the rows are unchanged.
\<close>

theorem record_id_always_TEXT:
  "dict_get (fst (schema_and_rows py dictionary)) ''record_id'' = Some ''TEXT''
   \<and> (engine_takes_load eng py dbs db_path table_name dictionary \<longrightarrow>
        (\<exists>tb. snd (dict_to_duckdb eng py dbs db_path table_name dictionary) db_path table_name
                = Some tb
           \<and> dict_get (columns tb) ''record_id'' = Some ''TEXT''))
   \<and> dict_get (fst (ensure_record_id (fst (infer_schema py rows)) (snd (infer_schema py rows))))
        ''record_id'' = Some ''TEXT''
   \<and> map dict_keys (snd (infer_schema py rows)) = map dict_keys rows
   \<and> ((\<forall>r \<in> set rows. ''record_id'' \<notin> set (dict_keys r)) \<longrightarrow>
        fst (ensure_record_id (fst (infer_schema py rows)) (snd (infer_schema py rows)))
          = fst (infer_schema py rows) @ [(''record_id'', ''TEXT'')]
        \<and> snd (ensure_record_id (fst (infer_schema py rows)) (snd (infer_schema py rows)))
          = map (\<lambda>r. r @ [(''record_id'', PNone)]) (snd (infer_schema py rows))
        \<and> (list_all (\<lambda>r. distinct (dict_keys r)) rows \<longrightarrow>
             snd (ensure_record_id (fst (infer_schema py rows)) (snd (infer_schema py rows)))
               = map (\<lambda>r. coerce_row py r @ [(''record_id'', PNone)]) rows)
        \<and> (\<forall>r \<in> set (snd (ensure_record_id (fst (infer_schema py rows)) (snd (infer_schema py rows)))).
             dict_get r ''record_id'' = Some PNone))
   \<and> (\<not> (\<forall>r \<in> set rows. ''record_id'' \<notin> set (dict_keys r)) \<longrightarrow>
        dict_keys (fst (ensure_record_id (fst (infer_schema py rows)) (snd (infer_schema py rows))))
          = dict_keys (fst (infer_schema py rows))
        \<and> snd (ensure_record_id (fst (infer_schema py rows)) (snd (infer_schema py rows)))
          = snd (infer_schema py rows))"
proof -
  let ?S = "fst (infer_schema py rows)"
  let ?R = "snd (infer_schema py rows)"
  have 1: "dict_get (fst (schema_and_rows py dictionary)) ''record_id'' = Some ''TEXT''"
    by (rule schema_get_record_id)
  have 2: "\<exists>tb. snd (dict_to_duckdb eng py dbs db_path table_name dictionary) db_path table_name
                = Some tb
           \<and> dict_get (columns tb) ''record_id'' = Some ''TEXT''"
    if h: "engine_takes_load eng py dbs db_path table_name dictionary"
    by (simp add: dict_to_duckdb_eq [OF h] schema_get_record_id)
  have 3: "dict_get (fst (ensure_record_id ?S ?R)) ''record_id'' = Some ''TEXT''"
    by (rule ensure_record_id_get)
  have keys: "map dict_keys ?R = map dict_keys rows"
    by (simp add: infer_schema_eq infer_rows_keys)
  have Skeys: "set (dict_keys ?S) = (\<Union>r \<in> set rows. set (dict_keys r))"
    by (simp add: infer_schema_eq infer_rows_schema_keys)
  have 4: "fst (ensure_record_id ?S ?R) = ?S @ [(''record_id'', ''TEXT'')]
        \<and> snd (ensure_record_id ?S ?R) = map (\<lambda>r. r @ [(''record_id'', PNone)]) ?R
        \<and> (list_all (\<lambda>r. distinct (dict_keys r)) rows \<longrightarrow>
             snd (ensure_record_id ?S ?R) = map (\<lambda>r. coerce_row py r @ [(''record_id'', PNone)]) rows)
        \<and> (\<forall>r \<in> set (snd (ensure_record_id ?S ?R)). dict_get r ''record_id'' = Some PNone)"
    if no: "\<forall>r \<in> set rows. ''record_id'' \<notin> set (dict_keys r)"
  proof -
    from no have nS: "''record_id'' \<notin> set (dict_keys ?S)"
      unfolding Skeys by blast
    have nR: "''record_id'' \<notin> set (dict_keys r)" if r: "r \<in> set ?R" for r
    proof -
      from r have "dict_keys r \<in> set (map dict_keys ?R)" by simp
      with keys have "dict_keys r \<in> set (map dict_keys rows)" by simp
      with no show ?thesis by auto
    qed
    have a: "fst (ensure_record_id ?S ?R) = ?S @ [(''record_id'', ''TEXT'')]"
      using nS by (simp add: ensure_record_id_def dict_set_new)
    have b: "snd (ensure_record_id ?S ?R) = map (\<lambda>r. r @ [(''record_id'', PNone)]) ?R"
      using nS nR by (simp add: ensure_record_id_def dict_setdefault_def)
    have c: "snd (ensure_record_id ?S ?R) = map (\<lambda>r. coerce_row py r @ [(''record_id'', PNone)]) rows"
      if "list_all (\<lambda>r. distinct (dict_keys r)) rows"
    proof -
      from that have R: "snd (infer_schema py rows) = map (coerce_row py) rows"
        by (simp add: infer_schema_eq infer_rows_coerce)
      show ?thesis
        by (subst b) (simp add: R)
    qed
    have d: "\<forall>r \<in> set (snd (ensure_record_id ?S ?R)). dict_get r ''record_id'' = Some PNone"
      using nR by (auto simp: b dict_get_append_new)
    from a b c d show ?thesis by blast
  qed
  have 5: "dict_keys (fst (ensure_record_id ?S ?R)) = dict_keys ?S
        \<and> snd (ensure_record_id ?S ?R) = ?R"
    if some: "\<not> (\<forall>r \<in> set rows. ''record_id'' \<notin> set (dict_keys r))"
  proof -
    from some have "''record_id'' \<in> set (dict_keys ?S)"
      unfolding Skeys by blast
    then show ?thesis
      by (simp add: ensure_record_id_def dict_keys_set)
  qed
  from 1 2 3 keys 4 5 show ?thesis by blast
qed

theorem record_id_always_TEXT_witness:
  "dict_get (fst (schema_and_rows py_example [(''q1'', PDict [(''record_id'', PInt 7)])])) ''record_id''
     = Some ''TEXT''
   \<and> snd (to_cell_value py_example (PInt 7)) = ''BIGINT''
   \<and> (\<exists>tb. snd (dict_to_duckdb engine_example py_example no_databases ''queuedata.db'' ''queuedata''
                  [(''q1'', PDict [(''record_id'', PInt 7)])]) ''queuedata.db'' ''queuedata'' = Some tb
          \<and> dict_get (columns tb) ''record_id'' = Some ''TEXT'')
   \<and> snd (ensure_record_id (fst (infer_schema py_example [[(''site'', PStr ''CERN'')]]))
                           (snd (infer_schema py_example [[(''site'', PStr ''CERN'')]])))
       = [[(''site'', PStr ''CERN''), (''record_id'', PNone)]]
   \<and> fst (ensure_record_id (fst (infer_schema py_example [[(''site'', PStr ''CERN'')]]))
                        (snd (infer_schema py_example [[(''site'', PStr ''CERN'')]])))
       = [(''site'', ''TEXT''), (''record_id'', ''TEXT'')]"
proof -
  let ?rows = "[[(''site'', PStr ''CERN'' :: unit pyval)]]"
  let ?d = "[(''q1'', PDict [(''record_id'', PInt 7)])] :: unit pyval pydict"
  have h: "\<forall>r \<in> set ?rows. ''record_id'' \<notin> set (dict_keys r)"
    by simp
  have e: "engine_takes_load engine_example py_example no_databases ''queuedata.db'' ''queuedata'' ?d"
    by code_simp
  have k: "snd (to_cell_value py_example (PInt 7)) = ''BIGINT''"
    by (simp add: to_cell_value_def is_int_def)
  have s: "infer_schema py_example ?rows = ([(''site'', ''TEXT'')], [[(''site'', PStr ''CERN'')]])"
    by (simp add: infer_schema_eq to_cell_value_def is_int_def is_float_def)
  note t = record_id_always_TEXT [of py_example ?d engine_example
      no_databases "''queuedata.db''" "''queuedata''" ?rows]
  note tab = t [THEN conjunct2, THEN conjunct1, THEN mp, OF e]
  note u = t [THEN conjunct2, THEN conjunct2, THEN conjunct2, THEN conjunct2, THEN conjunct1,
      THEN mp, OF h]
  from u [THEN conjunct2, THEN conjunct1]
  have p: "snd (ensure_record_id (fst (infer_schema py_example ?rows))
                           (snd (infer_schema py_example ?rows)))
       = [[(''site'', PStr ''CERN''), (''record_id'', PNone)]]"
    by (simp add: s)
  from u [THEN conjunct1]
  have q: "fst (ensure_record_id (fst (infer_schema py_example ?rows))
                           (snd (infer_schema py_example ?rows)))
       = [(''site'', ''TEXT''), (''record_id'', ''TEXT'')]"
    by (simp add: s)
  from t [THEN conjunct1] k tab p q
  show ?thesis by (intro conjI)
qed

subsection \<open>C10: \<open>record_id\<close> is the first column\<close>

text \<open>
  C10: for every input, \<open>record_id\<close> (of kind \<open>TEXT\<close>) is the first entry of the final
  schema and the first column definition in the text of the creation, hence the first
  column of the table whenever the engine takes the statements: every row built has
  \<open>record_id\<close> as its first key, so for a non-empty input the inferred schema starts
  with it, and the fix-up adds the column only to a schema that is empty.
\<close>

theorem record_id_first_column:
  "(\<exists>rest. fst (schema_and_rows py dictionary) = (''record_id'', ''TEXT'') # rest)
   \<and> (\<exists>more. create_sql table_name (fst (schema_and_rows py dictionary)) =
         ''CREATE OR REPLACE TABLE '' @ [CHR 0x22] @ table_name @ [CHR 0x22] @ '' (''
           @ [CHR 0x22] @ ''record_id'' @ [CHR 0x22] @ '' '' @ ''TEXT'' @ more)
   \<and> (engine_takes_load eng py dbs db_path table_name dictionary \<longrightarrow>
        (\<exists>tb rest. snd (dict_to_duckdb eng py dbs db_path table_name dictionary) db_path table_name
                 = Some tb
           \<and> columns tb = (''record_id'', ''TEXT'') # rest))
   \<and> (\<forall>r \<in> set (build_rows dictionary). \<exists>ks. dict_keys r = ''record_id'' # ks)
   \<and> (dictionary \<noteq> [] \<longrightarrow>
        (\<exists>ks. dict_keys (fst (infer_schema py (build_rows dictionary))) = ''record_id'' # ks))
   \<and> (''record_id'' \<notin> set (dict_keys (fst (infer_schema py (build_rows dictionary)))) \<longrightarrow>
        fst (infer_schema py (build_rows dictionary)) = [])"
proof -
  obtain rest where 1: "fst (schema_and_rows py dictionary) = (''record_id'', ''TEXT'') # rest"
    using schema_first by blast
  have sql: "\<exists>more. create_sql table_name (fst (schema_and_rows py dictionary)) =
         ''CREATE OR REPLACE TABLE '' @ [CHR 0x22] @ table_name @ [CHR 0x22] @ '' (''
           @ [CHR 0x22] @ ''record_id'' @ [CHR 0x22] @ '' '' @ ''TEXT'' @ more"
    by (rule create_sql_first_column [OF 1])
  have 2: "\<exists>tb rest. snd (dict_to_duckdb eng py dbs db_path table_name dictionary) db_path table_name
                 = Some tb
           \<and> columns tb = (''record_id'', ''TEXT'') # rest"
    if h: "engine_takes_load eng py dbs db_path table_name dictionary"
    by (simp add: dict_to_duckdb_eq [OF h] 1)
  have 3: "\<forall>r \<in> set (build_rows dictionary). \<exists>ks. dict_keys r = ''record_id'' # ks"
    using build_rows_first by blast
  have 4: "\<exists>ks. dict_keys (fst (infer_schema py (build_rows dictionary))) = ''record_id'' # ks"
    if ne: "dictionary \<noteq> []"
  proof -
    from ne 1 have "dict_set (snd (infer_rows py (build_rows dictionary) [])) ''record_id'' ''TEXT''
        = (''record_id'', ''TEXT'') # rest"
      by (simp add: schema_and_rows_Cons)
    then have "dict_keys (dict_set (snd (infer_rows py (build_rows dictionary) [])) ''record_id'' ''TEXT'')
        = ''record_id'' # dict_keys rest"
      by simp
    with infer_rows_build_has_record_id [OF ne, of py "[]"] show ?thesis
      by (simp add: infer_schema_eq dict_keys_set)
  qed
  have 5: "fst (infer_schema py (build_rows dictionary)) = []"
    if "''record_id'' \<notin> set (dict_keys (fst (infer_schema py (build_rows dictionary))))"
  proof (cases "dictionary = []")
    case True
    then show ?thesis by (simp add: infer_schema_eq)
  next
    case False
    from infer_rows_build_has_record_id [OF False, of py "[]"] that show ?thesis
      by (simp add: infer_schema_eq)
  qed
  from 1 sql 2 3 4 5 show ?thesis by blast
qed

theorem record_id_first_column_witness:
  "(\<exists>rest. fst (schema_and_rows py_example
       [(''q1'', PDict [(''site'', PStr ''CERN''), (''record_id'', PInt 7)])])
       = (''record_id'', ''TEXT'') # rest)
   \<and> (\<exists>tb rest. snd (dict_to_duckdb engine_example py_example no_databases ''queuedata.db'' ''queuedata''
          [(''q1'', PDict [(''site'', PStr ''CERN''), (''record_id'', PInt 7)])])
            ''queuedata.db'' ''queuedata'' = Some tb
          \<and> columns tb = (''record_id'', ''TEXT'') # rest)
   \<and> (\<exists>ks. dict_keys (fst (infer_schema py_example (build_rows
       [(''q1'', PDict [(''site'', PStr ''CERN''), (''record_id'', PInt 7)])]))) = ''record_id'' # ks)"
proof -
  let ?d = "[(''q1'', PDict [(''site'', PStr ''CERN''), (''record_id'', PInt 7)])] :: unit pyval pydict"
  have ne: "?d \<noteq> []"
    by simp
  have e: "engine_takes_load engine_example py_example no_databases ''queuedata.db'' ''queuedata'' ?d"
    by code_simp
  note t = record_id_first_column [of py_example ?d "''queuedata''" engine_example
      no_databases "''queuedata.db''"]
  from t [THEN conjunct1]
    t [THEN conjunct2, THEN conjunct2, THEN conjunct1, THEN mp, OF e]
    t [THEN conjunct2, THEN conjunct2, THEN conjunct2, THEN conjunct2, THEN conjunct1, THEN mp, OF ne]
  show ?thesis by (intro conjI)
qed

end
